theory Spec2Isabelle
  imports Main "HOL-Library.AList" "HOL-Library.Sublist" "HOL-Library.Multiset"
begin

section \<open>The command bot of \<^verbatim>\<open>discord/ext/commands/bot.py\<close>\<close>

text \<open>
  A shallow embedding of the module \<^verbatim>\<open>bot.py\<close>: the built-in help command, listener
  registration, cogs, extensions, the event fan-out and the processing of one message.
  Python objects are values, a dict is an association list in insertion order
  (\<open>map_of\<close> reads it, \<open>AList.update\<close> assigns a key in place or appends a new one,
  \<open>AList.delete\<close> deletes a key), a method that mutates the bot returns the new bot, and
  an exception is a value of type \<open>error\<close> returned beside the state the raise leaves
  behind.
\<close>

subsection \<open>Exceptions\<close>

text \<open>
  The exceptions this module raises or handles. \<open>OtherException\<close> stands for any other
  instance of \<^verbatim>\<open>Exception\<close>, \<open>BaseOnly\<close> for an exception outside that hierarchy
  (\<^verbatim>\<open>SystemExit\<close>, \<^verbatim>\<open>KeyboardInterrupt\<close>), which \<^verbatim>\<open>except Exception\<close> does not catch.
\<close>

datatype error =
    CancelledError
  | ClientException string
  | CommandNotFound string
  | ImportError string
  | KeyError string
  | AttributeError string
  | OtherException string
  | BaseOnly string

fun is_Exception :: "error \<Rightarrow> bool" where
  "is_Exception (BaseOnly _) = False"
| "is_Exception _ = True"

fun is_AttributeError :: "error \<Rightarrow> bool" where
  "is_AttributeError (AttributeError _) = True"
| "is_AttributeError _ = False"

text \<open>A \<^verbatim>\<open>for\<close> loop whose body may raise: the first exception ends the loop.\<close>

fun for_each :: "('a \<Rightarrow> 's \<Rightarrow> error option \<times> 's) \<Rightarrow> 'a list \<Rightarrow> 's \<Rightarrow> error option \<times> 's" where
  "for_each f [] s = (None, s)"
| "for_each f (x # xs) s =
     (case f x s of
        (Some e, s') \<Rightarrow> (Some e, s')
      | (None, s') \<Rightarrow> for_each f xs s')"

subsection \<open>Objects\<close>

type_synonym user = nat
type_synonym channel = nat

text \<open>A module object: its name and whether it has an attribute \<^verbatim>\<open>setup\<close>.\<close>

datatype pymodule = Module (mod_name: string) (has_setup: bool)

text \<open>
  A command of \<^verbatim>\<open>core.py\<close>. Only a group (\<^verbatim>\<open>GroupMixin\<close>) has the attribute
  \<^verbatim>\<open>commands\<close>, the dict of its subcommands; reading it on a plain command raises
  \<^verbatim>\<open>AttributeError\<close>. \<open>cmd_parent\<close> is the name of the parent command (\<open>None\<close> for
  Python's \<^verbatim>\<open>None\<close>), \<open>cmd_instance\<close> the key of the owning cog.
\<close>

datatype command =
    Command (cmd_name: string) (cmd_aliases: "string list") (cmd_module: "pymodule option")
      (cmd_parent: "string option") (cmd_instance: "string option")
  | Group (cmd_name: string) (cmd_aliases: "string list") (cmd_module: "pymodule option")
      (cmd_parent: "string option") (cmd_instance: "string option")
      (cmd_commands: "(string \<times> command) list")

fun set_instance :: "string option \<Rightarrow> command \<Rightarrow> command" where
  "set_instance i (Command n a m p _) = Command n a m p i"
| "set_instance i (Group n a m p _ cs) = Group n a m p i cs"

fun set_module :: "pymodule option \<Rightarrow> command \<Rightarrow> command" where
  "set_module m (Command n a _ p i) = Command n a m p i"
| "set_module m (Group n a _ p i cs) = Group n a m p i cs"

text \<open>
  A coroutine function registered as a listener: \<^verbatim>\<open>__name__\<close>, the module
  \<^verbatim>\<open>inspect.getmodule\<close> finds for it, and an identity. Two listeners are equal as
  the Python objects compare equal.
\<close>

datatype listener =
  Listener (func_name: string) (func_module: "pymodule option") (func_id: nat)

text \<open>
  What \<^verbatim>\<open>inspect.getmembers(cog)\<close> yields beside each name: a \<^verbatim>\<open>Command\<close>, a coroutine
  function, a callable with a \<^verbatim>\<open>__name__\<close> that is no coroutine function, or an object
  without \<^verbatim>\<open>__name__\<close>.
\<close>

datatype member =
    MCommand command
  | MCoroutine listener
  | MFunction string
  | MObject

text \<open>
  The teardown hook \<^verbatim>\<open>_<Class>__unload\<close> of a cog: absent, or present with what a call
  of it raises (\<open>None\<close> when it returns).
\<close>

datatype hook = NoHook | Hook "error option"

text \<open>
  A cog: the name of its type, the module \<^verbatim>\<open>inspect.getmodule\<close> finds for it, its
  members in the order \<^verbatim>\<open>inspect.getmembers\<close> lists them, and its teardown hook.
\<close>

datatype cog =
  Cog (cog_type_name: string) (cog_module: "pymodule option")
    (cog_members: "(string \<times> member) list") (cog_unload: hook)

datatype destination = ToAuthor user | ToChannel channel

record message =
  content :: string
  author :: user
  channel :: channel

text \<open>\<^verbatim>\<open>StringView\<close>: a buffer and a cursor.\<close>

record view =
  buffer :: string
  index :: nat

text \<open>
  \<^verbatim>\<open>Context\<close>. The back-reference \<^verbatim>\<open>ctx.bot\<close> is the bot passed beside the context.
\<close>

record cmd_context =
  ctx_message :: message
  ctx_invoked_with :: string
  ctx_view :: view
  ctx_prefix :: string
  ctx_command :: "command option"

datatype event_arg = ACommand command | AContext cmd_context | AError error | AMessage message

text \<open>
  The coroutine object \<^verbatim>\<open>self._run_extra(event, event_name, *args)\<close> handed to
  \<^verbatim>\<open>create_task\<close>.
\<close>

datatype task = Task (task_coro: listener) (task_event: string) (task_args: "event_arg list")

text \<open>
  What \<^verbatim>\<open>_get_prefix\<close> returns: a string, or a list or tuple of strings.
  \<^verbatim>\<open>command_prefix\<close> is such a value or a callable, which receives the bot and the
  message; the callable of the model receives the bot's user, the one attribute of the
  bot the strategies of this module (\<^verbatim>\<open>when_mentioned\<close>) read.
\<close>

datatype prefix_value = PStr string | PList "string list"

datatype prefix_spec = Fixed prefix_value | Callable "user \<Rightarrow> message \<Rightarrow> prefix_value"

text \<open>The object the help formatter renders: the bot, a cog or a command.\<close>

datatype help_target = HelpBot | HelpCog cog | HelpCommand command

text \<open>
  The bot. Besides the attributes of \<^verbatim>\<open>Bot\<close> the record holds what the methods act on
  outside the object: \<open>sys_modules\<close> (the process-wide \<^verbatim>\<open>sys.modules\<close>), \<open>executed\<close>
  (the modules whose top-level code an import has run, in order), \<open>sent\<close> (the calls of
  \<^verbatim>\<open>send_message\<close>), \<open>client_dispatched\<close> (the calls of \<^verbatim>\<open>discord.Client.dispatch\<close>)
  and \<open>tasks\<close> (the coroutines given to \<^verbatim>\<open>create_task\<close>).
  A format string is the function \<^verbatim>\<open>fmt.format\<close>; the formatter is the function
  \<^verbatim>\<open>formatter.format_help_for\<close>.
\<close>

record bot =
  user :: user
  command_prefix :: prefix_spec
  commands :: "(string \<times> command) list"
  extra_events :: "(string \<times> listener list) list"
  cogs :: "(string \<times> cog) list"
  extensions :: "(string \<times> pymodule) list"
  pm_help :: "bool option"
  command_not_found :: "string \<Rightarrow> string"
  command_has_no_subcommands :: "command \<Rightarrow> string \<Rightarrow> string"
  format_help_for :: "cmd_context \<Rightarrow> help_target \<Rightarrow> string list"
  sys_modules :: "(string \<times> pymodule) list"
  executed :: "string list"
  sent :: "(destination \<times> string) list"
  client_dispatched :: "(string \<times> event_arg list) list"
  tasks :: "task list"

text \<open>The defaults of \<^verbatim>\<open>Bot.__init__\<close> for the two format strings.\<close>

definition default_command_not_found :: "string \<Rightarrow> string" where
  "default_command_not_found n = ''No command called \"'' @ n @ ''\" found.''"

definition default_command_has_no_subcommands :: "command \<Rightarrow> string \<Rightarrow> string" where
  "default_command_has_no_subcommands c key = ''Command '' @ cmd_name c @ '' has no subcommands.''"

definition send_message :: "destination \<Rightarrow> string \<Rightarrow> bot \<Rightarrow> bot" where
  "send_message d text b = b\<lparr>sent := sent b @ [(d, text)]\<rparr>"

subsection \<open>The built-in help command\<close>

text \<open>Why the help command stops before it renders anything.\<close>

datatype help_failure = NotFound string | NoSubcommands command string

text \<open>
  The loop \<^verbatim>\<open>for key in commands[1:]\<close> of \<^verbatim>\<open>_default_help_command\<close>:
  \<^verbatim>\<open>command.commands.get(key)\<close> raises \<^verbatim>\<open>AttributeError\<close> on a command that is no group,
  and yields \<^verbatim>\<open>None\<close> on a group without that key.
\<close>

fun help_walk :: "command \<Rightarrow> string list \<Rightarrow> help_failure + command" where
  "help_walk c [] = Inr c"
| "help_walk (Command n a m p i) (key # keys) = Inl (NoSubcommands (Command n a m p i) key)"
| "help_walk (Group n a m p i cs) (key # keys) =
     (case map_of cs key of
        None \<Rightarrow> Inl (NotFound key)
      | Some c \<Rightarrow> help_walk c keys)"

text \<open>The three branches on \<^verbatim>\<open>len(commands)\<close>: what is to be rendered, or the failure.\<close>

fun help_resolve :: "bot \<Rightarrow> string list \<Rightarrow> help_failure + help_target" where
  "help_resolve b [] = Inr HelpBot"
| "help_resolve b [n] =
     (case map_of (cogs b) n of
        Some cg \<Rightarrow> Inr (HelpCog cg)
      | None \<Rightarrow>
          (case map_of (commands b) n of
             None \<Rightarrow> Inl (NotFound n)
           | Some c \<Rightarrow> Inr (HelpCommand c)))"
| "help_resolve b (n # keys) =
     (case map_of (commands b) n of
        None \<Rightarrow> Inl (NotFound n)
      | Some c \<Rightarrow>
          (case help_walk c keys of
             Inl f \<Rightarrow> Inl f
           | Inr c' \<Rightarrow> Inr (HelpCommand c')))"

fun failure_text :: "bot \<Rightarrow> help_failure \<Rightarrow> string" where
  "failure_text b (NotFound n) = command_not_found b n"
| "failure_text b (NoSubcommands c key) = command_has_no_subcommands b c key"

definition author_dest :: "cmd_context \<Rightarrow> destination" where
  "author_dest ctx = ToAuthor (author (ctx_message ctx))"

definition channel_dest :: "cmd_context \<Rightarrow> destination" where
  "channel_dest ctx = ToChannel (channel (ctx_message ctx))"

text \<open>\<^verbatim>\<open>sum(map(lambda l: len(l), pages))\<close>\<close>

definition characters :: "string list \<Rightarrow> nat" where
  "characters pages = sum_list (map length pages)"

definition default_help_command :: "cmd_context \<Rightarrow> string list \<Rightarrow> bot \<Rightarrow> bot" where
  "default_help_command ctx cmds b =
     (let destination = (if pm_help b = Some True then author_dest ctx else channel_dest ctx)
      in case help_resolve b cmds of
           Inl f \<Rightarrow> send_message destination (failure_text b f) b
         | Inr target \<Rightarrow>
             (let pages = format_help_for b ctx target;
                  destination' =
                    (if pm_help b = None \<and> characters pages > 1000 then author_dest ctx
                     else destination)
              in fold (\<lambda>page. send_message destination' page) pages b))"

subsection \<open>Listeners\<close>

text \<open>\<^verbatim>\<open>func.__name__\<close>; \<open>None\<close> where the read raises \<^verbatim>\<open>AttributeError\<close>.\<close>

fun dunder_name :: "member \<Rightarrow> string option" where
  "dunder_name (MCoroutine l) = Some (func_name l)"
| "dunder_name (MFunction n) = Some n"
| "dunder_name (MCommand c) = None"
| "dunder_name MObject = None"

definition listener_name :: "member \<Rightarrow> string option \<Rightarrow> string option" where
  "listener_name func name = (case name of None \<Rightarrow> dunder_name func | Some n \<Rightarrow> Some n)"

definition add_listener :: "member \<Rightarrow> string option \<Rightarrow> bot \<Rightarrow> error option \<times> bot" where
  "add_listener func name b =
     (case listener_name func name of
        None \<Rightarrow> (Some (AttributeError ''__name__''), b)
      | Some n \<Rightarrow>
          (case func of
             MCoroutine l \<Rightarrow>
               (case map_of (extra_events b) n of
                  Some ls \<Rightarrow> (None, b\<lparr>extra_events := AList.update n (ls @ [l]) (extra_events b)\<rparr>)
                | None \<Rightarrow> (None, b\<lparr>extra_events := AList.update n [l] (extra_events b)\<rparr>))
           | _ \<Rightarrow> (Some (ClientException ''Listeners must be coroutines''), b)))"

text \<open>
  \<^verbatim>\<open>list.remove\<close> deletes the first equal entry and raises \<^verbatim>\<open>ValueError\<close>, swallowed
  here, when there is none: \<open>remove1\<close>. An object that is no coroutine function equals
  no registered listener.
\<close>

definition remove_listener :: "member \<Rightarrow> string option \<Rightarrow> bot \<Rightarrow> error option \<times> bot" where
  "remove_listener func name b =
     (case listener_name func name of
        None \<Rightarrow> (Some (AttributeError ''__name__''), b)
      | Some n \<Rightarrow>
          (case map_of (extra_events b) n of
             None \<Rightarrow> (None, b)
           | Some ls \<Rightarrow>
               (case func of
                  MCoroutine l \<Rightarrow> (None, b\<lparr>extra_events := AList.update n (remove1 l ls) (extra_events b)\<rparr>)
                | _ \<Rightarrow> (None, b))))"

subsection \<open>The command registry\<close>

text \<open>\<^verbatim>\<open>isinstance(command, GroupMixin)\<close>\<close>

fun is_group :: "command \<Rightarrow> bool" where
  "is_group (Group _ _ _ _ _ _) = True"
| "is_group (Command _ _ _ _ _) = False"

text \<open>The keys a command is registered under: its name and its aliases.\<close>

definition cmd_keys :: "command \<Rightarrow> string list" where
  "cmd_keys c = cmd_name c # cmd_aliases c"

text \<open>
  Modelled from the spec: \<^verbatim>\<open>GroupMixin.add_command\<close> of \<^verbatim>\<open>core.py\<close>, which is not among
  the source files. The spec: insertion fails if the name or any alias already exists
  at this level; the registry maps a name or an alias to the command.
\<close>

definition add_command :: "command \<Rightarrow> bot \<Rightarrow> error option \<times> bot" where
  "add_command c b =
     (if list_ex (\<lambda>k. map_of (commands b) k \<noteq> None) (cmd_keys c)
      then (Some (ClientException ''already registered''), b)
      else (None, b\<lparr>commands := fold (\<lambda>k. AList.update k c) (cmd_keys c) (commands b)\<rparr>))"

text \<open>
  Modelled from the spec: \<^verbatim>\<open>GroupMixin.remove_command\<close> of \<^verbatim>\<open>core.py\<close>, which is not
  among the source files. The spec: removal by name yields the removed command or
  not-found; a command belongs to one registry, under its name and its aliases, so
  the removed command leaves with all of them.
\<close>

definition remove_command :: "string \<Rightarrow> bot \<Rightarrow> command option \<times> bot" where
  "remove_command n b =
     (case map_of (commands b) n of
        None \<Rightarrow> (None, b)
      | Some c \<Rightarrow>
          (Some c, b\<lparr>commands := fold AList.delete (n # cmd_keys c) (commands b)\<rparr>))"

text \<open>
  Modelled from the spec: \<^verbatim>\<open>GroupMixin.recursively_remove_all_commands\<close> of \<^verbatim>\<open>core.py\<close>,
  which is not among the source files. The spec: the subcommands of a group are
  cleared recursively; the group is left with an empty registry.
\<close>

fun recursively_remove_all_commands :: "command \<Rightarrow> command" where
  "recursively_remove_all_commands (Group n a m p i cs) = Group n a m p i []"
| "recursively_remove_all_commands (Command n a m p i) = Command n a m p i"

subsection \<open>Cogs\<close>

definition startswith :: "string \<Rightarrow> string \<Rightarrow> bool" where
  "startswith s p = (take (length p) s = p)"

text \<open>
  The body of the loop of \<^verbatim>\<open>add_cog\<close>. The command handed to \<^verbatim>\<open>add_command\<close> is the
  member with \<^verbatim>\<open>instance\<close> set; a member that has a parent is reached through its
  group only and is not registered again.
\<close>

definition add_member :: "string \<Rightarrow> string \<times> member \<Rightarrow> bot \<Rightarrow> error option \<times> bot" where
  "add_member cogkey = (\<lambda>(name, m) b.
     case m of
       MCommand c \<Rightarrow>
         (if cmd_parent c = None then add_command (set_instance (Some cogkey) c) b
          else (None, b))
     | _ \<Rightarrow> (if startswith name ''on_'' then add_listener m None b else (None, b)))"

definition add_cog :: "cog \<Rightarrow> bot \<Rightarrow> error option \<times> bot" where
  "add_cog cg b =
     for_each (add_member (cog_type_name cg)) (cog_members cg)
       (b\<lparr>cogs := AList.update (cog_type_name cg) cg (cogs b)\<rparr>)"

definition get_cog :: "string \<Rightarrow> bot \<Rightarrow> cog option" where
  "get_cog n b = map_of (cogs b) n"

definition remove_member :: "string \<times> member \<Rightarrow> bot \<Rightarrow> error option \<times> bot" where
  "remove_member = (\<lambda>(name, m) b.
     case m of
       MCommand c \<Rightarrow>
         (if cmd_parent c = None then (None, snd (remove_command (cmd_name c) b))
          else (None, b))
     | _ \<Rightarrow> (if startswith name ''on_'' then remove_listener m None b else (None, b)))"

text \<open>
  The call of the teardown hook: \<^verbatim>\<open>AttributeError\<close>, from the lookup of an absent hook
  or from the hook itself, is swallowed; any other exception propagates.
\<close>

fun call_unload :: "hook \<Rightarrow> error option" where
  "call_unload NoHook = None"
| "call_unload (Hook None) = None"
| "call_unload (Hook (Some e)) = (if is_AttributeError e then None else Some e)"

text \<open>
  \<^verbatim>\<open>remove_cog\<close> returns \<open>Inr r\<close> with Python's return value \<open>r\<close> (\<open>None\<close> for
  \<^verbatim>\<open>None\<close>), or \<open>Inl e\<close> when it raises.
\<close>

definition remove_cog :: "string \<Rightarrow> bot \<Rightarrow> (error + cog option) \<times> bot" where
  "remove_cog n b =
     (case map_of (cogs b) n of
        None \<Rightarrow> (Inr None, b)
      | Some cg \<Rightarrow>
          (case for_each remove_member (cog_members cg) (b\<lparr>cogs := AList.delete n (cogs b)\<rparr>) of
             (Some e, b') \<Rightarrow> (Inl e, b')
           | (None, b') \<Rightarrow>
               (case call_unload (cog_unload cg) of
                  Some e \<Rightarrow> (Inl e, b')
                | None \<Rightarrow> (Inr None, b'))))"

subsection \<open>Extensions\<close>

text \<open>
  \<^verbatim>\<open>importlib.import_module\<close>, of Python's library: a module in \<^verbatim>\<open>sys.modules\<close> is
  returned as it is; otherwise the module is looked up (\<open>source\<close>, \<open>None\<close> when the
  import fails), its top-level code runs and it enters \<^verbatim>\<open>sys.modules\<close>.
\<close>

definition import_module :: "(string \<Rightarrow> pymodule option) \<Rightarrow> string \<Rightarrow> bot \<Rightarrow> (error + pymodule) \<times> bot" where
  "import_module source n b =
     (case map_of (sys_modules b) n of
        Some lib \<Rightarrow> (Inr lib, b)
      | None \<Rightarrow>
          (case source n of
             None \<Rightarrow> (Inl (ImportError n), b)
           | Some lib \<Rightarrow>
               (Inr lib, b\<lparr>sys_modules := AList.update n lib (sys_modules b),
                           executed := executed b @ [n]\<rparr>)))"

text \<open>
  \<open>setup\<close> is the function \<^verbatim>\<open>lib.setup\<close> of each module: what it does to the bot, and
  what it raises.
\<close>

definition load_extension ::
  "(string \<Rightarrow> pymodule option) \<Rightarrow> (pymodule \<Rightarrow> bot \<Rightarrow> error option \<times> bot) \<Rightarrow> string \<Rightarrow> bot
     \<Rightarrow> error option \<times> bot" where
  "load_extension source setup n b =
     (if map_of (extensions b) n \<noteq> None then (None, b)
      else
        (case import_module source n b of
           (Inl e, b1) \<Rightarrow> (Some e, b1)
         | (Inr lib, b1) \<Rightarrow>
             (if \<not> has_setup lib
              then (Some (ClientException ''extension does not have a setup function''), b1)
              else
                (case setup lib b1 of
                   (Some e, b2) \<Rightarrow> (Some e, b2)
                 | (None, b2) \<Rightarrow>
                     (None, b2\<lparr>extensions := AList.update n lib (extensions b2)\<rparr>)))))"

text \<open>The body of the first loop of \<^verbatim>\<open>unload_extension\<close>, over a copy of \<^verbatim>\<open>self.cogs\<close>.\<close>

definition unload_cog :: "pymodule \<Rightarrow> string \<times> cog \<Rightarrow> bot \<Rightarrow> error option \<times> bot" where
  "unload_cog lib = (\<lambda>(cogname, cg) b.
     if cog_module cg = Some lib
     then (case remove_cog cogname b of
             (Inl e, b') \<Rightarrow> (Some e, b')
           | (Inr r, b') \<Rightarrow> (None, b'))
     else (None, b))"

text \<open>
  The body of the second loop, over the values of a copy of \<^verbatim>\<open>self.commands\<close>. The
  source sets \<^verbatim>\<open>command.module = None\<close> on the object, so a command met again under an
  alias is skipped; in the model its name is no longer registered by then and the
  second visit changes nothing either.
\<close>

definition unload_command :: "pymodule \<Rightarrow> command \<Rightarrow> bot \<Rightarrow> bot" where
  "unload_command lib c b =
     (if cmd_module c = Some lib
      then (let c1 = set_module None c;
                c2 = (if is_group c1 then recursively_remove_all_commands c1 else c1)
            in snd (remove_command (cmd_name c2) b))
      else b)"

text \<open>The third loop: the listeners of the module leave every list.\<close>

definition unload_listeners :: "pymodule \<Rightarrow> bot \<Rightarrow> bot" where
  "unload_listeners lib b =
     b\<lparr>extra_events :=
          map (\<lambda>(ev, ls). (ev, filter (\<lambda>l. func_module l \<noteq> Some lib) ls)) (extra_events b)\<rparr>"

definition unload_extension :: "string \<Rightarrow> bot \<Rightarrow> error option \<times> bot" where
  "unload_extension n b =
     (case map_of (extensions b) n of
        None \<Rightarrow> (None, b)
      | Some lib \<Rightarrow>
          (case for_each (unload_cog lib) (cogs b) b of
             (Some e, b1) \<Rightarrow> (Some e, b1)
           | (None, b1) \<Rightarrow>
               (let b2 = fold (unload_command lib) (map snd (commands b1)) b1;
                    b3 = unload_listeners lib b2;
                    b4 = b3\<lparr>extensions := AList.delete n (extensions b3)\<rparr>
                in if map_of (sys_modules b4) n = None then (Some (KeyError n), b4)
                   else (None, b4\<lparr>sys_modules := AList.delete n (sys_modules b4)\<rparr>))))"

subsection \<open>Events\<close>

text \<open>
  \<^verbatim>\<open>dispatch\<close>: the call of \<^verbatim>\<open>discord.Client.dispatch\<close> is recorded, then one task is
  created for each listener of \<^verbatim>\<open>'on_' + event_name\<close>. No listener runs inside
  \<^verbatim>\<open>dispatch\<close>.
\<close>

definition dispatch :: "string \<Rightarrow> event_arg list \<Rightarrow> bot \<Rightarrow> bot" where
  "dispatch event_name args b =
     (let b1 = b\<lparr>client_dispatched := client_dispatched b @ [(event_name, args)]\<rparr>
      in case map_of (extra_events b1) (''on_'' @ event_name) of
           None \<Rightarrow> b1
         | Some evs \<Rightarrow> b1\<lparr>tasks := tasks b1 @ map (\<lambda>event. Task event event_name args) evs\<rparr>)"

text \<open>How a coroutine ends when it is run: it returns, or it raises.\<close>

datatype outcome = Returns | Raises error

text \<open>
  \<^verbatim>\<open>_run_extra\<close>, run to its end: \<open>run\<close> is what each listener does with its arguments,
  \<open>on_error\<close> what the hook \<^verbatim>\<open>self.on_error\<close> does. The result is how the wrapper ends and
  the calls of \<^verbatim>\<open>on_error\<close> it made.
\<close>

definition run_extra ::
  "(listener \<Rightarrow> event_arg list \<Rightarrow> outcome) \<Rightarrow> (string \<Rightarrow> event_arg list \<Rightarrow> outcome) \<Rightarrow> task
     \<Rightarrow> outcome \<times> (string \<times> event_arg list) list" where
  "run_extra run on_error t =
     (case run (task_coro t) (task_args t) of
        Returns \<Rightarrow> (Returns, [])
      | Raises e \<Rightarrow>
          (if e = CancelledError then (Returns, [])
           else if is_Exception e then
             (case on_error (task_event t) (task_args t) of
                Returns \<Rightarrow> (Returns, [(task_event t, task_args t)])
              | Raises e' \<Rightarrow>
                  (if e' = CancelledError then (Returns, [(task_event t, task_args t)])
                   else (Raises e', [(task_event t, task_args t)])))
           else (Raises e, [])))"

subsection \<open>Processing one message\<close>

definition get_prefix :: "message \<Rightarrow> bot \<Rightarrow> prefix_value" where
  "get_prefix msg b =
     (case command_prefix b of
        Callable f \<Rightarrow> f (user b) msg
      | Fixed p \<Rightarrow> p)"

text \<open>
  Modelled from the spec: \<^verbatim>\<open>StringView.skip_string\<close> of \<^verbatim>\<open>view.py\<close>, which is not among
  the source files. The spec: if the remaining text starts with the string, the cursor
  advances past it and the result is true; otherwise the cursor is unchanged and the
  result is false.
\<close>

definition skip_string :: "string \<Rightarrow> view \<Rightarrow> bool \<times> view" where
  "skip_string s v =
     (if prefix s (drop (index v) (buffer v)) then (True, v\<lparr>index := index v + length s\<rparr>)
      else (False, v))"

text \<open>
  Modelled from the spec: \<^verbatim>\<open>discord.utils.find\<close>, which is not among the source files.
  The spec: the sequence is scanned in order and the first element accepted is the
  result; \<open>None\<close> when none is.
\<close>

fun utils_find :: "('a \<Rightarrow> 's \<Rightarrow> bool \<times> 's) \<Rightarrow> 'a list \<Rightarrow> 's \<Rightarrow> 'a option \<times> 's" where
  "utils_find p [] s = (None, s)"
| "utils_find p (x # xs) s =
     (case p x s of
        (True, s') \<Rightarrow> (Some x, s')
      | (False, s') \<Rightarrow> utils_find p xs s')"

text \<open>
  The prefix test of \<^verbatim>\<open>process_commands\<close>: the invoked prefix and the view behind it, or
  \<open>None\<close> where the function returns.
\<close>

fun resolve_prefix :: "prefix_value \<Rightarrow> view \<Rightarrow> (string \<times> view) option" where
  "resolve_prefix (PStr p) v =
     (case skip_string p v of
        (True, v') \<Rightarrow> Some (p, v')
      | (False, v') \<Rightarrow> None)"
| "resolve_prefix (PList ps) v =
     (case utils_find skip_string ps v of
        (None, v') \<Rightarrow> None
      | (Some p, v') \<Rightarrow> Some (p, v'))"

definition not_found_error :: "string \<Rightarrow> error" where
  "not_found_error invoker = CommandNotFound (''Command \"'' @ invoker @ ''\" is not found'')"

text \<open>
  \<^verbatim>\<open>process_commands\<close>. \<open>get_word\<close> is \<^verbatim>\<open>StringView.get_word\<close> and \<open>invoke\<close> is
  \<^verbatim>\<open>Command.invoke\<close>, both of files that are not among the sources. The context of the
  event \<^verbatim>\<open>command\<close> is the context as it is when the event is dispatched.
\<close>

definition process_commands ::
  "(view \<Rightarrow> string \<times> view) \<Rightarrow> (command \<Rightarrow> cmd_context \<Rightarrow> bot \<Rightarrow> error option \<times> bot) \<Rightarrow> message
     \<Rightarrow> bot \<Rightarrow> error option \<times> bot" where
  "process_commands get_word invoke msg b =
     (if author msg = user b then (None, b)
      else
        (case resolve_prefix (get_prefix msg b) \<lparr>buffer = content msg, index = 0\<rparr> of
           None \<Rightarrow> (None, b)
         | Some (invoked_prefix, v1) \<Rightarrow>
             (let (invoker, v2) = get_word v1;
                  ctx = \<lparr>ctx_message = msg, ctx_invoked_with = invoker, ctx_view = v2,
                         ctx_prefix = invoked_prefix, ctx_command = None\<rparr>
              in case map_of (commands b) invoker of
                   Some c \<Rightarrow>
                     (let b1 = dispatch ''command'' [ACommand c, AContext ctx] b;
                          ctx' = ctx\<lparr>ctx_command := Some c\<rparr>
                      in case invoke c ctx' b1 of
                           (Some e, b2) \<Rightarrow> (Some e, b2)
                         | (None, b2) \<Rightarrow>
                             (None, dispatch ''command_completion'' [ACommand c, AContext ctx'] b2))
                 | None \<Rightarrow>
                     (None, dispatch ''command_error''
                        [AError (not_found_error invoker), AContext ctx] b))))"

subsection \<open>Construction and sample values\<close>

text \<open>
  \<^verbatim>\<open>Bot.__init__\<close> with the default options: empty tables, the default format strings
  and the built-in help command, registered under \<^verbatim>\<open>help\<close>.
\<close>

definition help_cmd :: command where
  "help_cmd = Command ''help'' [] (Some (Module ''discord.ext.commands.bot'' False)) None None"

definition new_bot ::
  "user \<Rightarrow> prefix_spec \<Rightarrow> bool option \<Rightarrow> (cmd_context \<Rightarrow> help_target \<Rightarrow> string list) \<Rightarrow> bot" where
  "new_bot u p pm fmt =
     \<lparr>user = u, command_prefix = p, commands = [(''help'', help_cmd)], extra_events = [],
      cogs = [], extensions = [], pm_help = pm,
      command_not_found = default_command_not_found,
      command_has_no_subcommands = default_command_has_no_subcommands,
      format_help_for = fmt, sys_modules = [], executed = [], sent = [],
      client_dispatched = [], tasks = []\<rparr>"

text \<open>A formatter that renders one short page, and one that renders a long page.\<close>

definition short_page :: "cmd_context \<Rightarrow> help_target \<Rightarrow> string list" where
  "short_page ctx t = [''help text'']"

definition long_page :: "cmd_context \<Rightarrow> help_target \<Rightarrow> string list" where
  "long_page ctx t = [replicate 1001 CHR ''x'']"

definition sample_message :: "string \<Rightarrow> user \<Rightarrow> message" where
  "sample_message text u = \<lparr>content = text, author = u, channel = 20\<rparr>"

definition sample_ctx :: "string \<Rightarrow> cmd_context" where
  "sample_ctx text =
     \<lparr>ctx_message = sample_message text 10, ctx_invoked_with = ''help'',
      ctx_view = \<lparr>buffer = text, index = 5\<rparr>, ctx_prefix = ''!'', ctx_command = None\<rparr>"

text \<open>A group without subcommands, and a plain command, both registered at the top.\<close>

definition parent_group :: command where
  "parent_group = Group ''parent'' [] None None None []"

definition plain_cmd :: command where
  "plain_cmd = Command ''plain'' [] None None None"

definition help_bot :: bot where
  "help_bot = (new_bot 0 (Fixed (PStr ''!'')) (Some False) short_page)
     \<lparr>commands := [(''help'', help_cmd), (''parent'', parent_group), (''plain'', plain_cmd)]\<rparr>"

text \<open>The listeners registered for an event: the list under its key, none without the key.\<close>

definition listeners_of :: "bot \<Rightarrow> string \<Rightarrow> listener list" where
  "listeners_of b ev = (case map_of (extra_events b) ev of None \<Rightarrow> [] | Some ls \<Rightarrow> ls)"

text \<open>
  Stand-ins for the sample runs: a word reader that takes the text up to the next
  blank, an invocation that does nothing, two importable modules (one without
  \<^verbatim>\<open>setup\<close>), a \<^verbatim>\<open>setup\<close> that registers nothing, listeners that end in each of the ways
  \<^verbatim>\<open>_run_extra\<close> tells apart, and an \<^verbatim>\<open>on_error\<close> that returns.
\<close>

definition sample_get_word :: "view \<Rightarrow> string \<times> view" where
  "sample_get_word v =
     (let w = takeWhile (\<lambda>c. c \<noteq> CHR '' '') (drop (index v) (buffer v))
      in (w, v\<lparr>index := index v + length w\<rparr>))"

definition sample_invoke :: "command \<Rightarrow> cmd_context \<Rightarrow> bot \<Rightarrow> error option \<times> bot" where
  "sample_invoke c ctx b = (None, b)"

definition sample_source :: "string \<Rightarrow> pymodule option" where
  "sample_source n =
     (if n = ''missing_setup_module'' then Some (Module n False)
      else if n = ''ext'' then Some (Module n True)
      else None)"

definition sample_setup :: "pymodule \<Rightarrow> bot \<Rightarrow> error option \<times> bot" where
  "sample_setup lib b = (None, b)"

definition sample_run :: "listener \<Rightarrow> event_arg list \<Rightarrow> outcome" where
  "sample_run l args =
     (if func_id l = 1 then Raises (OtherException ''boom'')
      else if func_id l = 2 then Raises CancelledError
      else if func_id l = 3 then Raises (BaseOnly ''SystemExit'')
      else Returns)"

definition sample_on_error :: "string \<Rightarrow> event_arg list \<Rightarrow> outcome" where
  "sample_on_error ev args = Returns"

definition ready_bot :: bot where
  "ready_bot = (new_bot 0 (Fixed (PStr ''!'')) (Some False) short_page)
     \<lparr>extra_events := [(''on_ready'', [Listener ''on_ready'' None 1, Listener ''on_ready'' None 4])]\<rparr>"

text \<open>A cog with one listener and no teardown hook, and a bot that holds it.\<close>

definition listener_cog :: cog where
  "listener_cog =
     Cog ''Greeter'' None [(''on_ready'', MCoroutine (Listener ''on_ready'' None 7))] NoHook"

definition cog_bot :: bot where
  "cog_bot = (new_bot 0 (Fixed (PStr ''!'')) (Some False) short_page)
     \<lparr>cogs := [(''Greeter'', listener_cog)],
      extra_events := [(''on_ready'', [Listener ''on_ready'' None 7])]\<rparr>"

subsection \<open>What a cog contributes\<close>

text \<open>
  The members of a cog that \<^verbatim>\<open>add_cog\<close> and \<^verbatim>\<open>remove_cog\<close> act on: the commands without
  a parent, the keys they are registered under, and the coroutines whose attribute name
  starts with \<^verbatim>\<open>on_\<close>. \<open>members_ok\<close> says that every other member with such a name is
  a command or a coroutine, so that no registration of a listener raises.
\<close>

fun member_commands :: "(string \<times> member) list \<Rightarrow> command list" where
  "member_commands [] = []"
| "member_commands ((n, MCommand c) # ms) =
     (if cmd_parent c = None then c # member_commands ms else member_commands ms)"
| "member_commands (m # ms) = member_commands ms"

fun member_listeners :: "(string \<times> member) list \<Rightarrow> listener list" where
  "member_listeners [] = []"
| "member_listeners ((n, MCoroutine l) # ms) =
     (if startswith n ''on_'' then l # member_listeners ms else member_listeners ms)"
| "member_listeners (m # ms) = member_listeners ms"

fun members_ok :: "(string \<times> member) list \<Rightarrow> bool" where
  "members_ok [] = True"
| "members_ok ((n, MCommand c) # ms) = members_ok ms"
| "members_ok ((n, MCoroutine l) # ms) = members_ok ms"
| "members_ok ((n, m) # ms) = (\<not> startswith n ''on_'' \<and> members_ok ms)"

definition member_keys :: "(string \<times> member) list \<Rightarrow> string set" where
  "member_keys ms = (\<Union>c\<in>set (member_commands ms). set (cmd_keys c))"

text \<open>
  A command of the cog \<open>key\<close> is registered under all of its keys, as \<^verbatim>\<open>add_cog\<close>
  registered it, or under none.
\<close>

definition owned :: "string \<Rightarrow> bot \<Rightarrow> command \<Rightarrow> bool" where
  "owned key s c \<longleftrightarrow>
     (\<forall>k\<in>set (cmd_keys c). map_of (commands s) k = Some (set_instance (Some key) c)) \<or>
     (\<forall>k\<in>set (cmd_keys c). map_of (commands s) k = None)"

text \<open>
  A cog with a command, an alias and a listener; and a cog whose command has the name
  of the built-in help command.
\<close>

definition tools_cog :: cog where
  "tools_cog =
     Cog ''Tools'' None
       [(''on_ready'', MCoroutine (Listener ''on_ready'' None 7)),
        (''ping'', MCommand (Command ''ping'' [''p''] None None None))]
       NoHook"

definition clash_cog :: cog where
  "clash_cog =
     Cog ''Clash'' None [(''help'', MCommand (Command ''help'' [] None None None))] NoHook"

section \<open>Properties\<close>

subsection \<open>Shared lemmas\<close>

lemma sent_fold_send:
  "sent (fold (\<lambda>page. send_message d page) pages b) = sent b @ map (Pair d) pages"
  by (induction pages arbitrary: b) (simp_all add: send_message_def)

lemma utils_find_skip_string:
  "utils_find skip_string ps v =
     (case List.find (\<lambda>p. prefix p (drop (index v) (buffer v))) ps of
        None \<Rightarrow> (None, v)
      | Some p \<Rightarrow> (Some p, v\<lparr>index := index v + length p\<rparr>))"
  by (induction ps) (simp_all add: skip_string_def)

lemma for_each_preserves:
  assumes "\<And>x s. g (snd (f x s)) = g s"
  shows "g (snd (for_each f xs s)) = g s"
proof (induction xs arbitrary: s)
  case Nil
  show ?case by simp
next
  case (Cons x xs)
  show ?case
  proof (cases "f x s")
    case (Pair r s')
    then have "g s' = g s" using assms [of x s] by simp
    with Pair Cons.IH [of s'] show ?thesis by (cases r) simp_all
  qed
qed

lemma remove_listener_cogs [simp]: "cogs (snd (remove_listener f n b)) = cogs b"
  by (simp add: remove_listener_def split: option.splits member.splits)

lemma remove_command_cogs [simp]: "cogs (snd (remove_command n b)) = cogs b"
  by (simp add: remove_command_def split: option.splits)

lemma remove_member_cogs [simp]: "cogs (snd (remove_member m b)) = cogs b"
  by (cases m) (simp add: remove_member_def split: member.splits)

lemma for_each_remove_member_cogs [simp]:
  "cogs (snd (for_each remove_member ms b)) = cogs b"
  by (rule for_each_preserves) simp

lemma for_each_remove_member_cogsD:
  "for_each remove_member ms s = (r, s') \<Longrightarrow> cogs s' = cogs s"
  using for_each_remove_member_cogs [of ms s] by simp

subsection \<open>The help command\<close>

text \<open>
  C1, as the code has it. The help command is called with the tokens \<open>t0, t1, ...\<close> and
  \<open>t0\<close> is a registered command \<open>c\<close>. If \<open>c\<close> is no group (it has no subcommand
  registry at all), the one message sent is the \<^verbatim>\<open>command_has_no_subcommands\<close> text for
  \<open>c\<close> and \<open>t1\<close>. If \<open>c\<close> is a group that has no subcommand \<open>t1\<close>, the one message sent
  is the \<^verbatim>\<open>command_not_found\<close> text for \<open>t1\<close>. In both cases the walk stops there:
  the bot is as before but for that message, sent to the author when \<^verbatim>\<open>pm_help\<close> is
  true and to the channel otherwise.
\<close>

theorem help_walk_failure_report:
  assumes "map_of (commands b) t0 = Some c"
  shows "(\<not> is_group c \<longrightarrow>
            default_help_command ctx (t0 # t1 # ts) b =
              send_message (if pm_help b = Some True then author_dest ctx else channel_dest ctx)
                (command_has_no_subcommands b c t1) b) \<and>
         (is_group c \<and> map_of (cmd_commands c) t1 = None \<longrightarrow>
            default_help_command ctx (t0 # t1 # ts) b =
              send_message (if pm_help b = Some True then author_dest ctx else channel_dest ctx)
                (command_not_found b t1) b)"
  using assms by (cases c) (simp_all add: default_help_command_def)

theorem help_walk_failure_report_witness:
  "map_of (commands help_bot) ''plain'' = Some plain_cmd \<and> \<not> is_group plain_cmd \<and>
   sent (default_help_command (sample_ctx ''!help plain missing'') [''plain'', ''missing''] help_bot)
     = [(ToChannel 20, ''Command plain has no subcommands.'')]"
proof -
  have h: "map_of (commands help_bot) ''plain'' = Some plain_cmd"
    by (simp add: help_bot_def new_bot_def)
  have g: "\<not> is_group plain_cmd"
    by (simp add: plain_cmd_def)
  from help_walk_failure_report [OF h, of "sample_ctx ''!help plain missing''" "''missing''" "[]"] g
  show ?thesis
    using h
    by (simp add: send_message_def help_bot_def new_bot_def plain_cmd_def channel_dest_def
        sample_ctx_def sample_message_def default_command_has_no_subcommands_def)
qed

text \<open>
  The claim C1 as it is stated fails for a group: \<^verbatim>\<open>parent\<close> is registered, it is a
  group without the subcommand \<^verbatim>\<open>missing\<close>, and the help command answers with the
  \<^verbatim>\<open>command_not_found\<close> text, which is not the \<^verbatim>\<open>command_has_no_subcommands\<close> text.
\<close>

theorem help_group_without_subcommand_counterexample:
  "map_of (commands help_bot) ''parent'' = Some parent_group \<and>
   map_of (cmd_commands parent_group) ''missing'' = None \<and>
   default_help_command (sample_ctx ''!help parent missing'') [''parent'', ''missing''] help_bot
     = send_message (ToChannel 20) (command_not_found help_bot ''missing'') help_bot \<and>
   command_not_found help_bot ''missing''
     \<noteq> command_has_no_subcommands help_bot parent_group ''missing''"
  by (simp add: help_bot_def new_bot_def parent_group_def default_help_command_def
      channel_dest_def sample_ctx_def sample_message_def default_command_not_found_def
      default_command_has_no_subcommands_def)

text \<open>
  C8. What the help command sends, and where. A failure text goes to the author when
  \<^verbatim>\<open>pm_help\<close> is true and to the channel otherwise. The pages go, each as one message and
  in order, to the author when \<^verbatim>\<open>pm_help\<close> is true, to the channel when it is false, and
  when it is \<^verbatim>\<open>None\<close> to the author if the pages hold more than 1000 characters together
  and to the channel if not.
\<close>

theorem help_destination_follows_pm_help:
  "sent (default_help_command ctx cmds b) = sent b @
     (case help_resolve b cmds of
        Inl f \<Rightarrow> [(if pm_help b = Some True then author_dest ctx else channel_dest ctx,
                   failure_text b f)]
      | Inr target \<Rightarrow>
          map (Pair (case pm_help b of
                       Some True \<Rightarrow> author_dest ctx
                     | Some False \<Rightarrow> channel_dest ctx
                     | None \<Rightarrow>
                         (if 1000 < characters (format_help_for b ctx target) then author_dest ctx
                          else channel_dest ctx)))
            (format_help_for b ctx target))"
  by (auto simp: default_help_command_def Let_def sent_fold_send send_message_def
      split: sum.splits option.splits bool.splits)

theorem help_destination_follows_pm_help_witness:
  "sent (default_help_command (sample_ctx ''!help'') [] (new_bot 0 (Fixed (PStr ''!'')) None long_page))
     = [(ToAuthor 10, replicate 1001 CHR ''x'')] \<and>
   sent (default_help_command (sample_ctx ''!help'') [] (new_bot 0 (Fixed (PStr ''!'')) None short_page))
     = [(ToChannel 20, ''help text'')] \<and>
   sent (default_help_command (sample_ctx ''!help'') [] (new_bot 0 (Fixed (PStr ''!'')) (Some True) short_page))
     = [(ToAuthor 10, ''help text'')] \<and>
   sent (default_help_command (sample_ctx ''!help'') [] (new_bot 0 (Fixed (PStr ''!'')) (Some False) long_page))
     = [(ToChannel 20, replicate 1001 CHR ''x'')]"
  using help_destination_follows_pm_help [of "sample_ctx ''!help''" "[]" "new_bot 0 (Fixed (PStr ''!'')) None long_page"]
    help_destination_follows_pm_help [of "sample_ctx ''!help''" "[]" "new_bot 0 (Fixed (PStr ''!'')) None short_page"]
    help_destination_follows_pm_help [of "sample_ctx ''!help''" "[]" "new_bot 0 (Fixed (PStr ''!'')) (Some True) short_page"]
    help_destination_follows_pm_help [of "sample_ctx ''!help''" "[]" "new_bot 0 (Fixed (PStr ''!'')) (Some False) long_page"]
  by (simp add: new_bot_def long_page_def short_page_def characters_def author_dest_def
      channel_dest_def sample_ctx_def sample_message_def)

subsection \<open>Cogs: the return value of \<^verbatim>\<open>remove_cog\<close>\<close>

text \<open>
  C9. \<^verbatim>\<open>remove_cog\<close> never returns a cog: it returns \<^verbatim>\<open>None\<close> or it raises. With no cog
  under the name it returns \<^verbatim>\<open>None\<close> and changes nothing; whenever it returns, no cog is
  registered under the name afterwards.
\<close>

theorem remove_cog_returns_None:
  "(fst (remove_cog n b) = Inr None \<or> (\<exists>e. fst (remove_cog n b) = Inl e)) \<and>
   (map_of (cogs b) n = None \<longrightarrow> remove_cog n b = (Inr None, b)) \<and>
   (fst (remove_cog n b) = Inr None \<longrightarrow> map_of (cogs (snd (remove_cog n b))) n = None)"
  by (auto simp: remove_cog_def delete_conv' split: option.splits prod.splits
      dest!: for_each_remove_member_cogsD)

theorem remove_cog_returns_None_witness:
  "map_of (cogs cog_bot) ''Greeter'' = Some listener_cog \<and>
   fst (remove_cog ''Greeter'' cog_bot) = Inr None \<and>
   map_of (cogs (snd (remove_cog ''Greeter'' cog_bot))) ''Greeter'' = None \<and>
   map_of (cogs cog_bot) ''Absent'' = None \<and>
   remove_cog ''Absent'' cog_bot = (Inr None, cog_bot)"
proof -
  have found: "map_of (cogs cog_bot) ''Greeter'' = Some listener_cog"
    by (simp add: cog_bot_def new_bot_def)
  have ret: "fst (remove_cog ''Greeter'' cog_bot) = Inr None"
    by (simp add: remove_cog_def cog_bot_def new_bot_def listener_cog_def remove_member_def
        startswith_def remove_listener_def listener_name_def)
  have absent: "map_of (cogs cog_bot) ''Absent'' = None"
    by (simp add: cog_bot_def new_bot_def)
  from remove_cog_returns_None [of "''Greeter''" cog_bot]
    remove_cog_returns_None [of "''Absent''" cog_bot] found ret absent
  show ?thesis by simp
qed

subsection \<open>Extensions: loading\<close>

text \<open>
  C7. \<^verbatim>\<open>load_extension\<close> changes nothing and returns when the name is in the load
  table. When it is not, and the import yields a module without \<^verbatim>\<open>setup\<close>, the call
  raises \<^verbatim>\<open>ClientException\<close> and the load table is as before.
\<close>

theorem load_extension_requires_setup:
  "(map_of (extensions b) n \<noteq> None \<longrightarrow> load_extension source setup n b = (None, b)) \<and>
   (map_of (extensions b) n = None \<and> fst (import_module source n b) = Inr lib \<and> \<not> has_setup lib \<longrightarrow>
      fst (load_extension source setup n b)
        = Some (ClientException ''extension does not have a setup function'') \<and>
      extensions (snd (load_extension source setup n b)) = extensions b)"
  by (auto simp: load_extension_def import_module_def split: option.splits prod.splits sum.splits)

theorem load_extension_requires_setup_witness:
  "fst (import_module sample_source ''missing_setup_module'' help_bot)
     = Inr (Module ''missing_setup_module'' False) \<and>
   fst (load_extension sample_source sample_setup ''missing_setup_module'' help_bot)
     = Some (ClientException ''extension does not have a setup function'') \<and>
   extensions (snd (load_extension sample_source sample_setup ''missing_setup_module'' help_bot)) = [] \<and>
   load_extension sample_source sample_setup ''ext''
       (help_bot\<lparr>extensions := [(''ext'', Module ''ext'' True)]\<rparr>)
     = (None, help_bot\<lparr>extensions := [(''ext'', Module ''ext'' True)]\<rparr>)"
proof -
  have imp: "fst (import_module sample_source ''missing_setup_module'' help_bot)
               = Inr (Module ''missing_setup_module'' False)"
    by (simp add: import_module_def sample_source_def help_bot_def new_bot_def)
  have ext: "extensions help_bot = []"
    by (simp add: help_bot_def new_bot_def)
  from load_extension_requires_setup
         [of help_bot "''missing_setup_module''" sample_source sample_setup
             "Module ''missing_setup_module'' False"]
       load_extension_requires_setup
         [of "help_bot\<lparr>extensions := [(''ext'', Module ''ext'' True)]\<rparr>" "''ext''"
             sample_source sample_setup "Module ''ext'' True"]
       imp ext
  show ?thesis by simp
qed

text \<open>
  C10. A load that raises for want of \<^verbatim>\<open>setup\<close> leaves the load table as it was and the
  module in \<^verbatim>\<open>sys.modules\<close>. A later \<^verbatim>\<open>load_extension\<close> of the name, whatever can be
  imported by then, raises again and changes nothing: no top-level code runs again.
  \<^verbatim>\<open>unload_extension\<close> of the name changes nothing either, since the name is not in the
  load table; the module stays cached.
\<close>

theorem failed_load_stays_cached:
  assumes "map_of (extensions b) n = None"
    and "import_module source n b = (Inr lib, b1)"
    and "\<not> has_setup lib"
  shows "load_extension source setup n b
           = (Some (ClientException ''extension does not have a setup function''), b1) \<and>
         extensions b1 = extensions b \<and>
         map_of (sys_modules b1) n = Some lib \<and>
         load_extension source' setup' n b1
           = (Some (ClientException ''extension does not have a setup function''), b1) \<and>
         executed (snd (load_extension source' setup' n b1)) = executed b1 \<and>
         unload_extension n b1 = (None, b1)"
  using assms
  by (auto simp: load_extension_def import_module_def unload_extension_def update_conv'
      split: option.splits prod.splits sum.splits)

theorem failed_load_stays_cached_witness:
  "load_extension sample_source sample_setup ''missing_setup_module'' help_bot
     = (Some (ClientException ''extension does not have a setup function''),
        help_bot\<lparr>sys_modules := [(''missing_setup_module'', Module ''missing_setup_module'' False)],
                 executed := [''missing_setup_module'']\<rparr>) \<and>
   load_extension sample_source sample_setup ''missing_setup_module''
       (help_bot\<lparr>sys_modules := [(''missing_setup_module'', Module ''missing_setup_module'' False)],
                 executed := [''missing_setup_module'']\<rparr>)
     = (Some (ClientException ''extension does not have a setup function''),
        help_bot\<lparr>sys_modules := [(''missing_setup_module'', Module ''missing_setup_module'' False)],
                 executed := [''missing_setup_module'']\<rparr>)"
proof -
  have ext: "map_of (extensions help_bot) ''missing_setup_module'' = None"
    by (simp add: help_bot_def new_bot_def)
  have imp: "import_module sample_source ''missing_setup_module'' help_bot
               = (Inr (Module ''missing_setup_module'' False),
                  help_bot\<lparr>sys_modules := [(''missing_setup_module'', Module ''missing_setup_module'' False)],
                           executed := [''missing_setup_module'']\<rparr>)"
    by (simp add: import_module_def sample_source_def help_bot_def new_bot_def)
  have nos: "\<not> has_setup (Module ''missing_setup_module'' False)"
    by simp
  from failed_load_stays_cached [OF ext imp nos, of sample_setup sample_source sample_setup]
  show ?thesis by simp
qed

subsection \<open>Events\<close>

text \<open>
  C4, as the code has it. \<^verbatim>\<open>dispatch\<close> creates one task for every listener of the event,
  in order, whatever the listeners do when they run; it runs none of them and raises
  nothing of theirs. The wrapper of a listener that is cancelled returns and calls
  nothing. The wrapper of a listener that raises another instance of \<^verbatim>\<open>Exception\<close> calls
  \<^verbatim>\<open>on_error\<close> once, with the event name and the arguments, and returns if \<^verbatim>\<open>on_error\<close>
  returns or is cancelled. The wrapper of a listener that returns, returns, whatever
  the other listeners of the event do.
\<close>

theorem listener_wrapper_isolation:
  "tasks (dispatch ev args b) = tasks b @ map (\<lambda>l. Task l ev args) (listeners_of b (''on_'' @ ev)) \<and>
   (run l args = Raises CancelledError \<longrightarrow>
      run_extra run on_error (Task l ev args) = (Returns, [])) \<and>
   (run l args = Raises e \<and> e \<noteq> CancelledError \<and> is_Exception e \<longrightarrow>
      snd (run_extra run on_error (Task l ev args)) = [(ev, args)] \<and>
      (on_error ev args = Returns \<or> on_error ev args = Raises CancelledError \<longrightarrow>
         fst (run_extra run on_error (Task l ev args)) = Returns)) \<and>
   (run l args = Returns \<longrightarrow> run_extra run on_error (Task l ev args) = (Returns, []))"
  by (auto simp: dispatch_def listeners_of_def run_extra_def Let_def
      split: option.splits outcome.splits)

theorem listener_wrapper_isolation_witness:
  "tasks (dispatch ''ready'' [] ready_bot)
     = [Task (Listener ''on_ready'' None 1) ''ready'' [], Task (Listener ''on_ready'' None 4) ''ready'' []] \<and>
   sample_run (Listener ''on_ready'' None 1) [] = Raises (OtherException ''boom'') \<and>
   run_extra sample_run sample_on_error (Task (Listener ''on_ready'' None 1) ''ready'' [])
     = (Returns, [(''ready'', [])]) \<and>
   run_extra sample_run sample_on_error (Task (Listener ''on_ready'' None 4) ''ready'' [])
     = (Returns, []) \<and>
   run_extra sample_run sample_on_error (Task (Listener ''on_ready'' None 2) ''ready'' [])
     = (Returns, [])"
proof -
  have r1: "sample_run (Listener ''on_ready'' None 1) [] = Raises (OtherException ''boom'')"
    and r4: "sample_run (Listener ''on_ready'' None 4) [] = Returns"
    and r2: "sample_run (Listener ''on_ready'' None 2) [] = Raises CancelledError"
    by (simp_all add: sample_run_def)
  have ls: "listeners_of ready_bot ''on_ready''
              = [Listener ''on_ready'' None 1, Listener ''on_ready'' None 4]"
    by (simp add: listeners_of_def ready_bot_def new_bot_def)
  have t: "tasks ready_bot = []"
    by (simp add: ready_bot_def new_bot_def)
  have oe: "sample_on_error ''ready'' [] = Returns"
    by (simp add: sample_on_error_def)
  from listener_wrapper_isolation
         [where ev = "''ready''" and args = "[]" and b = ready_bot and run = sample_run
            and l = "Listener ''on_ready'' None 1" and e = "OtherException ''boom''"
            and on_error = sample_on_error]
       listener_wrapper_isolation
         [where ev = "''ready''" and args = "[]" and b = ready_bot and run = sample_run
            and l = "Listener ''on_ready'' None 4" and e = "OtherException ''boom''"
            and on_error = sample_on_error]
       listener_wrapper_isolation
         [where ev = "''ready''" and args = "[]" and b = ready_bot and run = sample_run
            and l = "Listener ''on_ready'' None 2" and e = "OtherException ''boom''"
            and on_error = sample_on_error]
       r1 r4 r2 ls t oe
  show ?thesis by (simp add: prod_eq_iff)
qed

text \<open>
  The claim C4 as it is stated fails for an exception outside the \<^verbatim>\<open>Exception\<close>
  hierarchy: a listener that raises \<^verbatim>\<open>SystemExit\<close> ends its wrapper with that exception,
  and \<^verbatim>\<open>on_error\<close> is not called.
\<close>

theorem listener_base_exception_counterexample:
  "sample_run (Listener ''on_ready'' None 3) [] = Raises (BaseOnly ''SystemExit'') \<and>
   run_extra sample_run sample_on_error (Task (Listener ''on_ready'' None 3) ''ready'' [])
     = (Raises (BaseOnly ''SystemExit''), [])"
  by (simp add: sample_run_def run_extra_def)

subsection \<open>Processing one message\<close>

text \<open>
  C6. Against a list of prefixes the prefix test yields the first prefix of the list,
  in order, that the text at the cursor starts with, and moves the cursor behind it;
  it yields nothing when no prefix of the list matches. When no listed prefix is a
  prefix of the message text, \<^verbatim>\<open>process_commands\<close> returns and the bot is unchanged: no
  event is dispatched, nothing is invoked.
\<close>

theorem first_listed_prefix_wins:
  "resolve_prefix (PList ps) v =
     (case List.find (\<lambda>p. prefix p (drop (index v) (buffer v))) ps of
        None \<Rightarrow> None
      | Some p \<Rightarrow> Some (p, v\<lparr>index := index v + length p\<rparr>)) \<and>
   (get_prefix msg b = PList ps \<and> List.find (\<lambda>p. prefix p (content msg)) ps = None \<longrightarrow>
      process_commands gw ivk msg b = (None, b))"
  by (simp add: utils_find_skip_string process_commands_def split: option.splits)

theorem first_listed_prefix_wins_witness:
  "resolve_prefix (PList [''?'', ''!'', ''!!'']) \<lparr>buffer = ''!!foo bar'', index = 0\<rparr>
     = Some (''!'', \<lparr>buffer = ''!!foo bar'', index = 1\<rparr>) \<and>
   get_prefix (sample_message ''hello'' 10) (help_bot\<lparr>command_prefix := Fixed (PList [''!'', ''?''])\<rparr>)
     = PList [''!'', ''?''] \<and>
   process_commands sample_get_word sample_invoke (sample_message ''hello'' 10)
       (help_bot\<lparr>command_prefix := Fixed (PList [''!'', ''?''])\<rparr>)
     = (None, help_bot\<lparr>command_prefix := Fixed (PList [''!'', ''?''])\<rparr>)"
proof -
  have gp: "get_prefix (sample_message ''hello'' 10)
              (help_bot\<lparr>command_prefix := Fixed (PList [''!'', ''?''])\<rparr>) = PList [''!'', ''?'']"
    by (simp add: get_prefix_def)
  have nf: "List.find (\<lambda>p. prefix p (content (sample_message ''hello'' 10))) [''!'', ''?''] = None"
    by (simp add: sample_message_def)
  from first_listed_prefix_wins
         [where ps = "[''?'', ''!'', ''!!'']" and v = "\<lparr>buffer = ''!!foo bar'', index = 0\<rparr>"
            and msg = "sample_message ''hello'' 10"
            and b = "help_bot\<lparr>command_prefix := Fixed (PList [''!'', ''?''])\<rparr>"
            and gw = sample_get_word and ivk = sample_invoke]
       first_listed_prefix_wins
         [where ps = "[''!'', ''?'']" and v = "\<lparr>buffer = ''!!foo bar'', index = 0\<rparr>"
            and msg = "sample_message ''hello'' 10"
            and b = "help_bot\<lparr>command_prefix := Fixed (PList [''!'', ''?''])\<rparr>"
            and gw = sample_get_word and ivk = sample_invoke]
       gp nf
  show ?thesis by simp
qed

text \<open>
  C5, as the code has it. For a message that is not the bot's own, whose prefix matches
  and whose invoker is no registered command, \<^verbatim>\<open>process_commands\<close> returns without
  raising, and what it does is to dispatch one \<^verbatim>\<open>command_error\<close> event that carries
  \<^verbatim>\<open>CommandNotFound\<close> and the context.
\<close>

theorem unresolved_invoker_emits_command_error:
  assumes "author msg \<noteq> user b"
    and "resolve_prefix (get_prefix msg b) \<lparr>buffer = content msg, index = 0\<rparr> = Some (p, v1)"
    and "gw v1 = (invoker, v2)"
    and "map_of (commands b) invoker = None"
  shows "process_commands gw ivk msg b =
           (None, dispatch ''command_error''
              [AError (not_found_error invoker),
               AContext \<lparr>ctx_message = msg, ctx_invoked_with = invoker, ctx_view = v2,
                         ctx_prefix = p, ctx_command = None\<rparr>] b) \<and>
         client_dispatched (snd (process_commands gw ivk msg b)) =
           client_dispatched b @
             [(''command_error'',
               [AError (not_found_error invoker),
                AContext \<lparr>ctx_message = msg, ctx_invoked_with = invoker, ctx_view = v2,
                          ctx_prefix = p, ctx_command = None\<rparr>])]"
  using assms by (simp add: process_commands_def dispatch_def Let_def split: option.splits)

theorem unresolved_invoker_emits_command_error_witness:
  "fst (process_commands sample_get_word sample_invoke (sample_message ''!nope arg'' 10) help_bot) = None \<and>
   client_dispatched
       (snd (process_commands sample_get_word sample_invoke (sample_message ''!nope arg'' 10) help_bot))
     = [(''command_error'',
         [AError (CommandNotFound ''Command \"nope\" is not found''),
          AContext \<lparr>ctx_message = sample_message ''!nope arg'' 10, ctx_invoked_with = ''nope'',
                    ctx_view = \<lparr>buffer = ''!nope arg'', index = 5\<rparr>, ctx_prefix = ''!'',
                    ctx_command = None\<rparr>])]"
proof -
  have a: "author (sample_message ''!nope arg'' 10) \<noteq> user help_bot"
    by (simp add: sample_message_def help_bot_def new_bot_def)
  have r: "resolve_prefix (get_prefix (sample_message ''!nope arg'' 10) help_bot)
             \<lparr>buffer = content (sample_message ''!nope arg'' 10), index = 0\<rparr>
           = Some (''!'', \<lparr>buffer = ''!nope arg'', index = 1\<rparr>)"
    by (simp add: get_prefix_def help_bot_def new_bot_def sample_message_def skip_string_def)
  have w: "sample_get_word \<lparr>buffer = ''!nope arg'', index = 1\<rparr>
             = (''nope'', \<lparr>buffer = ''!nope arg'', index = 5\<rparr>)"
    by (simp add: sample_get_word_def)
  have c: "map_of (commands help_bot) ''nope'' = None"
    by (simp add: help_bot_def new_bot_def)
  have d: "client_dispatched help_bot = []"
    by (simp add: help_bot_def new_bot_def)
  note th = unresolved_invoker_emits_command_error
         [where gw = sample_get_word and ivk = sample_invoke, OF a r w c]
  from th [THEN conjunct1]
  have f: "fst (process_commands sample_get_word sample_invoke
                 (sample_message ''!nope arg'' 10) help_bot) = None"
    by simp
  from th [THEN conjunct2] d
  have g: "client_dispatched
             (snd (process_commands sample_get_word sample_invoke
                    (sample_message ''!nope arg'' 10) help_bot))
           = [(''command_error'',
               [AError (CommandNotFound ''Command \"nope\" is not found''),
                AContext \<lparr>ctx_message = sample_message ''!nope arg'' 10,
                          ctx_invoked_with = ''nope'',
                          ctx_view = \<lparr>buffer = ''!nope arg'', index = 5\<rparr>, ctx_prefix = ''!'',
                          ctx_command = None\<rparr>])]"
    by (simp add: not_found_error_def)
  from f g show ?thesis by (rule conjI)
qed

text \<open>
  The claim C5 as it is stated fails for a message of the bot's own: the text starts with
  the prefix and the invoker is no registered command, yet \<^verbatim>\<open>process_commands\<close> returns
  with the bot unchanged, and no \<^verbatim>\<open>command_error\<close> event is dispatched.
\<close>

theorem own_message_emits_nothing_counterexample:
  "author (sample_message ''!nope arg'' 0) = user help_bot \<and>
   resolve_prefix (get_prefix (sample_message ''!nope arg'' 0) help_bot)
       \<lparr>buffer = content (sample_message ''!nope arg'' 0), index = 0\<rparr>
     = Some (''!'', \<lparr>buffer = ''!nope arg'', index = 1\<rparr>) \<and>
   map_of (commands help_bot) ''nope'' = None \<and>
   process_commands sample_get_word sample_invoke (sample_message ''!nope arg'' 0) help_bot
     = (None, help_bot) \<and>
   client_dispatched help_bot = []"
  by (simp add: process_commands_def get_prefix_def help_bot_def new_bot_def sample_message_def
      skip_string_def)

subsection \<open>Cogs: adding, then removing\<close>

lemma map_of_fold_update:
  "map_of (fold (\<lambda>k. AList.update k c) ks xs) k = (if k \<in> set ks then Some c else map_of xs k)"
  by (induction ks arbitrary: xs) (simp_all add: update_conv')

lemma map_of_fold_delete:
  "map_of (fold AList.delete ks xs) k = (if k \<in> set ks then None else map_of xs k)"
  by (induction ks arbitrary: xs) (simp_all add: delete_conv')

lemma add_command_ok:
  assumes "add_command c b = (None, b')"
  shows "\<forall>k\<in>set (cmd_keys c). map_of (commands b) k = None"
    and "map_of (commands b') k = (if k \<in> set (cmd_keys c) then Some c else map_of (commands b) k)"
    and "extra_events b' = extra_events b"
  using assms
  by (auto simp: add_command_def list_ex_iff map_of_fold_update split: if_splits)

lemma remove_command_map:
  "map_of (commands (snd (remove_command n b))) k =
     (case map_of (commands b) n of
        None \<Rightarrow> map_of (commands b) k
      | Some c \<Rightarrow> (if k = n \<or> k \<in> set (cmd_keys c) then None else map_of (commands b) k))"
  by (simp add: remove_command_def map_of_fold_delete delete_conv' split: option.splits)

lemma remove_command_events [simp]:
  "extra_events (snd (remove_command n b)) = extra_events b"
  by (simp add: remove_command_def split: option.splits)

lemma add_listener_ok:
  assumes "add_listener m None b = (None, b')"
  shows "\<exists>l. m = MCoroutine l \<and> commands b' = commands b \<and>
           (\<forall>ev. listeners_of b' ev =
              (if ev = func_name l then listeners_of b ev @ [l] else listeners_of b ev))"
  using assms
  by (cases m)
     (auto simp: add_listener_def listener_name_def listeners_of_def update_conv'
        split: option.splits)

lemma remove_listener_coroutine:
  "remove_listener (MCoroutine l) None b = (None, b') \<Longrightarrow>
     commands b' = commands b \<and>
     (\<forall>ev. listeners_of b' ev =
        (if ev = func_name l then remove1 l (listeners_of b ev) else listeners_of b ev))"
  by (auto simp: remove_listener_def listener_name_def listeners_of_def update_conv'
      split: option.splits)

lemma remove_listener_coroutine_total:
  "fst (remove_listener (MCoroutine l) None b) = None"
  by (simp add: remove_listener_def listener_name_def split: option.splits)

lemma for_each_Cons_None:
  "for_each f (x # xs) s = (None, s1) \<longleftrightarrow> (\<exists>s'. f x s = (None, s') \<and> for_each f xs s' = (None, s1))"
  by (auto split: prod.splits option.splits)

lemma cmd_keys_set_instance [simp]: "cmd_keys (set_instance i c) = cmd_keys c"
  by (cases c) (simp_all add: cmd_keys_def)

lemma cmd_name_set_instance [simp]: "cmd_name (set_instance i c) = cmd_name c"
  by (cases c) simp_all

lemma cmd_name_in_keys [simp]: "cmd_name c \<in> set (cmd_keys c)"
  by (simp add: cmd_keys_def)

lemma member_keys_simps [simp]:
  "member_keys [] = {}"
  "member_keys ((n, MCommand c) # ms) =
     (if cmd_parent c = None then set (cmd_keys c) \<union> member_keys ms else member_keys ms)"
  "member_keys ((n, MCoroutine l) # ms) = member_keys ms"
  "member_keys ((n, MFunction f) # ms) = member_keys ms"
  "member_keys ((n, MObject) # ms) = member_keys ms"
  by (simp_all add: member_keys_def)

lemma add_member_events_cmd:
  "add_member key (n, MCommand c) b = (None, b') \<Longrightarrow> extra_events b' = extra_events b"
  by (auto simp: add_member_def dest: add_command_ok(3) split: if_splits)

lemma add_members_commands:
  assumes "for_each (add_member key) ms b = (None, b1)"
  shows "(\<forall>k\<in>member_keys ms. map_of (commands b) k = None) \<and>
         (\<forall>c\<in>set (member_commands ms). \<forall>k\<in>set (cmd_keys c).
            map_of (commands b1) k = Some (set_instance (Some key) c)) \<and>
         (\<forall>k. k \<notin> member_keys ms \<longrightarrow> map_of (commands b1) k = map_of (commands b) k)"
  using assms
proof (induction ms arbitrary: b)
  case Nil
  then show ?case by simp
next
  case (Cons x ms)
  obtain n m where x: "x = (n, m)" by (cases x)
  from Cons.prems x obtain b' where
    step: "add_member key (n, m) b = (None, b')" and
    rest: "for_each (add_member key) ms b' = (None, b1)"
    unfolding for_each_Cons_None by blast
  note IH = Cons.IH [OF rest]
  show ?case
  proof (cases m)
    case (MCommand c)
    show ?thesis
    proof (cases "cmd_parent c = None")
      case True
      with step MCommand have ac: "add_command (set_instance (Some key) c) b = (None, b')"
        by (simp add: add_member_def)
      have fresh: "\<forall>k\<in>set (cmd_keys c). map_of (commands b) k = None"
        using add_command_ok(1) [OF ac] by simp
      have upd: "map_of (commands b') k =
                   (if k \<in> set (cmd_keys c) then Some (set_instance (Some key) c)
                    else map_of (commands b) k)" for k
        using add_command_ok(2) [OF ac] by simp
      have disj: "k \<in> set (cmd_keys c) \<Longrightarrow> k \<notin> member_keys ms" for k
        using IH upd [of k] by auto
      show ?thesis
        using IH fresh upd disj x MCommand True
        by (auto split: if_splits)
    next
      case False
      with step MCommand have "b' = b" by (simp add: add_member_def)
      with IH x MCommand False show ?thesis by auto
    qed
  next
    case (MCoroutine l)
    have "commands b' = commands b"
      using step MCoroutine
      by (auto simp: add_member_def dest: add_listener_ok split: if_splits)
    with IH x MCoroutine show ?thesis by simp
  next
    case (MFunction f)
    have "commands b' = commands b"
      using step MFunction
      by (auto simp: add_member_def dest: add_listener_ok split: if_splits)
    with IH x MFunction show ?thesis by simp
  next
    case MObject
    have "commands b' = commands b"
      using step MObject
      by (auto simp: add_member_def dest: add_listener_ok split: if_splits)
    with IH x MObject show ?thesis by simp
  qed
qed

lemma listeners_of_cong: "extra_events b' = extra_events b \<Longrightarrow> listeners_of b' ev = listeners_of b ev"
  by (simp add: listeners_of_def)

lemma add_members_listeners:
  assumes "for_each (add_member key) ms b = (None, b1)"
  shows "members_ok ms \<and>
         (\<forall>ev. mset (listeners_of b1 ev) =
            mset (listeners_of b ev) + mset (filter (\<lambda>l. func_name l = ev) (member_listeners ms)))"
  using assms
proof (induction ms arbitrary: b)
  case Nil
  then show ?case by simp
next
  case (Cons x ms)
  obtain n m where x: "x = (n, m)" by (cases x)
  from Cons.prems x obtain b' where
    step: "add_member key (n, m) b = (None, b')" and
    rest: "for_each (add_member key) ms b' = (None, b1)"
    unfolding for_each_Cons_None by blast
  note IH = Cons.IH [OF rest]
  show ?case
  proof (cases m)
    case (MCommand c)
    have "listeners_of b' ev = listeners_of b ev" for ev
      using add_member_events_cmd step MCommand by (auto intro: listeners_of_cong)
    with IH x MCommand show ?thesis by simp
  next
    case (MCoroutine l)
    show ?thesis
    proof (cases "startswith n ''on_''")
      case True
      with step MCoroutine have "add_listener (MCoroutine l) None b = (None, b')"
        by (simp add: add_member_def)
      from add_listener_ok [OF this]
      have "listeners_of b' ev =
              (if ev = func_name l then listeners_of b ev @ [l] else listeners_of b ev)" for ev
        by simp
      with IH x MCoroutine True show ?thesis by simp
    next
      case False
      with step MCoroutine have "b' = b" by (simp add: add_member_def)
      with IH x MCoroutine False show ?thesis by simp
    qed
  next
    case (MFunction f)
    have "\<not> startswith n ''on_'' \<and> b' = b"
      using step MFunction
      by (auto simp: add_member_def dest: add_listener_ok split: if_splits)
    with IH x MFunction show ?thesis by simp
  next
    case MObject
    have "\<not> startswith n ''on_'' \<and> b' = b"
      using step MObject
      by (auto simp: add_member_def dest: add_listener_ok split: if_splits)
    with IH x MObject show ?thesis by simp
  qed
qed

lemma remove_member_ok_step:
  "members_ok ((n, m) # ms) \<Longrightarrow> fst (remove_member (n, m) s) = None"
  by (cases m)
     (simp_all add: remove_member_def remove_listener_coroutine_total)

lemma remove_members_total:
  "members_ok ms \<Longrightarrow> fst (for_each remove_member ms s) = None"
proof (induction ms arbitrary: s)
  case Nil
  show ?case by simp
next
  case (Cons x ms)
  obtain n m where x: "x = (n, m)" by (cases x)
  have ok: "members_ok ms" using Cons.prems x by (cases m) simp_all
  obtain s' where s': "remove_member (n, m) s = (None, s')"
    using remove_member_ok_step [of n m ms s] Cons.prems x
    by (cases "remove_member (n, m) s") simp
  with Cons.IH [OF ok, of s'] x show ?case by simp
qed

lemma remove_members_listeners:
  assumes "for_each remove_member ms s = (None, s2)"
  shows "mset (listeners_of s2 ev) =
           mset (listeners_of s ev) - mset (filter (\<lambda>l. func_name l = ev) (member_listeners ms))"
  using assms
proof (induction ms arbitrary: s)
  case Nil
  then show ?case by simp
next
  case (Cons x ms)
  obtain n m where x: "x = (n, m)" by (cases x)
  from Cons.prems x obtain s' where
    step: "remove_member (n, m) s = (None, s')" and
    rest: "for_each remove_member ms s' = (None, s2)"
    unfolding for_each_Cons_None by blast
  note IH = Cons.IH [OF rest]
  show ?case
  proof (cases m)
    case (MCommand c)
    have "extra_events s' = extra_events s"
      using step MCommand by (auto simp: remove_member_def split: if_splits)
    then have "listeners_of s' ev = listeners_of s ev" by (rule listeners_of_cong)
    with IH x MCommand show ?thesis by simp
  next
    case (MCoroutine l)
    show ?thesis
    proof (cases "startswith n ''on_''")
      case True
      with step MCoroutine have "remove_listener (MCoroutine l) None s = (None, s')"
        by (simp add: remove_member_def)
      from remove_listener_coroutine [OF this]
      have "listeners_of s' ev =
              (if ev = func_name l then remove1 l (listeners_of s ev) else listeners_of s ev)"
        by simp
      with IH x MCoroutine True show ?thesis by (simp add: diff_diff_add)
    next
      case False
      with step MCoroutine have "s' = s" by (simp add: remove_member_def)
      with IH x MCoroutine False show ?thesis by simp
    qed
  next
    case (MFunction f)
    have "extra_events s' = extra_events s"
      using step MFunction
      by (auto simp: remove_member_def remove_listener_def listener_name_def
          split: if_splits option.splits)
    then have "listeners_of s' ev = listeners_of s ev" by (rule listeners_of_cong)
    with IH x MFunction show ?thesis by simp
  next
    case MObject
    have "extra_events s' = extra_events s"
      using step MObject
      by (auto simp: remove_member_def remove_listener_def listener_name_def
          split: if_splits option.splits)
    then have "listeners_of s' ev = listeners_of s ev" by (rule listeners_of_cong)
    with IH x MObject show ?thesis by simp
  qed
qed

lemma remove_owned_command:
  assumes "owned key s c"
  shows "map_of (commands (snd (remove_command (cmd_name c) s))) k =
           (if k \<in> set (cmd_keys c) then None else map_of (commands s) k)"
proof (cases "map_of (commands s) (cmd_name c)")
  case None
  with assms have "\<forall>k\<in>set (cmd_keys c). map_of (commands s) k = None"
    unfolding owned_def using cmd_name_in_keys [of c] by force
  with None show ?thesis by (simp add: remove_command_map)
next
  case (Some c')
  with assms have "c' = set_instance (Some key) c"
    unfolding owned_def using cmd_name_in_keys [of c] by force
  with Some show ?thesis by (auto simp: remove_command_map)
qed

lemma owned_after_remove:
  assumes c: "owned key s c" and d: "owned key s d"
    and s': "\<And>k. map_of (commands s') k = (if k \<in> set (cmd_keys c) then None else map_of (commands s) k)"
  shows "owned key s' d"
proof (cases "\<forall>k\<in>set (cmd_keys d). map_of (commands s) k = None")
  case True
  then show ?thesis by (simp add: owned_def s')
next
  case False
  with d have dS: "\<forall>k\<in>set (cmd_keys d). map_of (commands s) k = Some (set_instance (Some key) d)"
    by (auto simp: owned_def)
  show ?thesis
  proof (cases "set (cmd_keys d) \<inter> set (cmd_keys c) = {}")
    case True
    with dS show ?thesis by (auto simp: owned_def s')
  next
    case False
    then obtain k where kd: "k \<in> set (cmd_keys d)" and kc: "k \<in> set (cmd_keys c)" by auto
    from kd dS have "map_of (commands s) k = Some (set_instance (Some key) d)" by simp
    with c kc have "set_instance (Some key) c = set_instance (Some key) d"
      by (auto simp: owned_def)
    then have "cmd_keys c = cmd_keys d"
      by (metis cmd_keys_set_instance)
    then show ?thesis by (simp add: owned_def s')
  qed
qed

lemma remove_members_commands:
  assumes "for_each remove_member ms s = (None, s2)"
    and "\<forall>c\<in>set (member_commands ms). owned key s c"
  shows "map_of (commands s2) k = (if k \<in> member_keys ms then None else map_of (commands s) k)"
  using assms
proof (induction ms arbitrary: s)
  case Nil
  then show ?case by simp
next
  case (Cons x ms)
  obtain n m where x: "x = (n, m)" by (cases x)
  from Cons.prems(1) x obtain s' where
    step: "remove_member (n, m) s = (None, s')" and
    rest: "for_each remove_member ms s' = (None, s2)"
    unfolding for_each_Cons_None by blast
  show ?case
  proof (cases "\<exists>c. m = MCommand c \<and> cmd_parent c = None")
    case True
    then obtain c where m: "m = MCommand c" and top: "cmd_parent c = None" by blast
    from step m top have s': "s' = snd (remove_command (cmd_name c) s)"
      by (simp add: remove_member_def)
    have oc: "owned key s c" using Cons.prems(2) x m top by simp
    have upd: "map_of (commands s') k =
                 (if k \<in> set (cmd_keys c) then None else map_of (commands s) k)" for k
      unfolding s' by (rule remove_owned_command [OF oc])
    have "\<forall>d\<in>set (member_commands ms). owned key s' d"
    proof
      fix d assume "d \<in> set (member_commands ms)"
      then have "owned key s d" using Cons.prems(2) x m top by simp
      from owned_after_remove [OF oc this upd] show "owned key s' d" .
    qed
    from Cons.IH [OF rest this] upd x m top show ?thesis by simp
  next
    case False
    have same: "commands s' = commands s"
      using step False
      by (cases m)
         (auto simp: remove_member_def remove_listener_def listener_name_def
            split: if_splits option.splits)
    have mc: "member_commands (x # ms) = member_commands ms"
      using False x by (cases m) auto
    have mk: "member_keys (x # ms) = member_keys ms"
      using mc by (simp add: member_keys_def)
    have "\<forall>d\<in>set (member_commands ms). owned key s' d"
      using Cons.prems(2) mc same by (simp add: owned_def)
    from Cons.IH [OF rest this] same mk show ?thesis by simp
  qed
qed

lemma add_member_cogs [simp]: "cogs (snd (add_member key m b)) = cogs b"
  by (cases m)
     (auto simp: add_member_def add_command_def add_listener_def split: member.splits option.splits)

lemma for_each_add_member_cogs:
  "for_each (add_member key) ms s = (r, s') \<Longrightarrow> cogs s' = cogs s"
  using for_each_preserves [of cogs "add_member key" ms s] by simp

text \<open>
  C3, as the code has it. If \<^verbatim>\<open>add_cog\<close> returns without raising, then \<^verbatim>\<open>remove_cog\<close> with
  the cog's key, called next, leaves the command registry with the same command under
  every name and alias as before \<^verbatim>\<open>add_cog\<close>, and leaves for every event name the same
  listeners as before, up to their order (a list that the cog started stays in the
  table, empty). \<^verbatim>\<open>remove_cog\<close> then raises only what the teardown hook raises.
\<close>

theorem add_then_remove_cog_restores:
  assumes "add_cog cg b = (None, b1)"
  shows "map_of (commands (snd (remove_cog (cog_type_name cg) b1))) = map_of (commands b) \<and>
         (\<forall>ev. mset (listeners_of (snd (remove_cog (cog_type_name cg) b1)) ev)
                 = mset (listeners_of b ev)) \<and>
         fst (remove_cog (cog_type_name cg) b1)
           = (case call_unload (cog_unload cg) of None \<Rightarrow> Inr None | Some e \<Rightarrow> Inl e)"
proof -
  let ?key = "cog_type_name cg"
  let ?ms = "cog_members cg"
  let ?b0 = "b\<lparr>cogs := AList.update ?key cg (cogs b)\<rparr>"
  let ?s = "b1\<lparr>cogs := AList.delete ?key (cogs b1)\<rparr>"
  from assms have add: "for_each (add_member ?key) ?ms ?b0 = (None, b1)"
    by (simp add: add_cog_def)
  have found: "map_of (cogs b1) ?key = Some cg"
    using for_each_add_member_cogs [OF add] by (simp add: update_conv')
  note A = add_members_commands [OF add]
  note L = add_members_listeners [OF add]
  obtain s2 where rem: "for_each remove_member ?ms ?s = (None, s2)"
    using remove_members_total [of ?ms ?s] L
    by (cases "for_each remove_member ?ms ?s") simp
  have own: "\<forall>c\<in>set (member_commands ?ms). owned ?key ?s c"
    using A by (simp add: owned_def)
  have cmds: "map_of (commands s2) k = map_of (commands b) k" for k
    using remove_members_commands [OF rem own, of k] A by auto
  have lst: "mset (listeners_of s2 ev) = mset (listeners_of b ev)" for ev
  proof -
    have "listeners_of ?s ev = listeners_of b1 ev" by (simp add: listeners_of_def)
    moreover have "listeners_of ?b0 ev = listeners_of b ev" by (simp add: listeners_of_def)
    ultimately show ?thesis
      using remove_members_listeners [OF rem, of ev] L by simp
  qed
  have rc: "remove_cog ?key b1 =
              (case call_unload (cog_unload cg) of None \<Rightarrow> (Inr None, s2) | Some e \<Rightarrow> (Inl e, s2))"
    using found rem by (simp add: remove_cog_def split: option.splits)
  have "snd (remove_cog ?key b1) = s2"
    using rc by (simp split: option.splits)
  moreover have "fst (remove_cog ?key b1)
                   = (case call_unload (cog_unload cg) of None \<Rightarrow> Inr None | Some e \<Rightarrow> Inl e)"
    using rc by (simp split: option.splits)
  ultimately show ?thesis using cmds lst by (simp add: fun_eq_iff)
qed

theorem add_then_remove_cog_restores_witness:
  "fst (add_cog tools_cog cog_bot) = None \<and>
   map_of (commands (snd (add_cog tools_cog cog_bot))) ''p''
     = Some (Command ''ping'' [''p''] None None (Some ''Tools'')) \<and>
   map_of (commands (snd (remove_cog ''Tools'' (snd (add_cog tools_cog cog_bot)))))
     = map_of (commands cog_bot) \<and>
   (\<forall>ev. mset (listeners_of (snd (remove_cog ''Tools'' (snd (add_cog tools_cog cog_bot)))) ev)
          = mset (listeners_of cog_bot ev)) \<and>
   fst (remove_cog ''Tools'' (snd (add_cog tools_cog cog_bot))) = Inr None"
proof -
  have f: "fst (add_cog tools_cog cog_bot) = None"
    by (simp add: add_cog_def tools_cog_def cog_bot_def new_bot_def add_member_def
        add_listener_def listener_name_def add_command_def cmd_keys_def startswith_def
        help_cmd_def)
  then have a: "add_cog tools_cog cog_bot = (None, snd (add_cog tools_cog cog_bot))"
    by (simp add: prod_eq_iff)
  have p: "map_of (commands (snd (add_cog tools_cog cog_bot))) ''p''
             = Some (Command ''ping'' [''p''] None None (Some ''Tools''))"
    by (simp add: add_cog_def tools_cog_def cog_bot_def new_bot_def add_member_def
        add_listener_def listener_name_def add_command_def cmd_keys_def startswith_def
        help_cmd_def)
  have k: "cog_type_name tools_cog = ''Tools''" and h: "cog_unload tools_cog = NoHook"
    by (simp_all add: tools_cog_def)
  from add_then_remove_cog_restores [OF a] f p show ?thesis
    by (simp add: k h)
qed

text \<open>
  The claim C3 as it is stated fails for a cog whose command has a name that is taken:
  \<^verbatim>\<open>add_cog\<close> raises at that command, the cog stays in the cog table, and \<^verbatim>\<open>remove_cog\<close>
  with its key then removes the command that held the name before, here the built-in
  help command.
\<close>

theorem add_cog_name_clash_counterexample:
  "map_of (commands help_bot) ''help'' = Some help_cmd \<and>
   fst (add_cog clash_cog help_bot) = Some (ClientException ''already registered'') \<and>
   commands (snd (add_cog clash_cog help_bot)) = commands help_bot \<and>
   fst (remove_cog ''Clash'' (snd (add_cog clash_cog help_bot))) = Inr None \<and>
   map_of (commands (snd (remove_cog ''Clash'' (snd (add_cog clash_cog help_bot))))) ''help'' = None"
  by (simp add: add_cog_def clash_cog_def help_bot_def new_bot_def add_member_def
      add_command_def cmd_keys_def remove_cog_def remove_member_def remove_command_def
      help_cmd_def)

end
